theory Spec2Isabelle
  imports Complex_Main "HOL-Library.Log_Nat" "HOL-Library.Multiset" "HOL-Library.Sublist"
begin

section \<open>Data model (shared schema)\<close>

text \<open>
  The tables of the schema become records. Account numbers are \<^typ>\<open>int\<close> (the column
  is \<open>integer\<close>), identifiers are strings, and a \<open>Date\<close> is the integer its
  \<open>getTime()\<close> returns. A JavaScript \<open>number\<close> that holds an amount is the
  \<^typ>\<open>real\<close> it denotes: a finite IEEE 754 double. Field names carry a suffix where
  two records of the source share a name or where the name is taken in HOL (\<open>id\<close>).
\<close>

record Account =
  id_a :: string
  accountNumber :: int
  name :: string
  balance :: real
  createdAt_a :: int

record Transaction =
  id_t :: string
  type_t :: string
  fromAccountId :: "string option"
  toAccountId :: "string option"
  amount :: real
  createdAt_t :: int

text \<open>\<open>InsertAccount\<close>: the insert schema of \<open>accounts\<close> without \<open>id\<close> and
  \<open>createdAt\<close>; \<open>balance\<close> has a default and is optional.\<close>

record InsertAccount =
  accountNumber_i :: int
  name_i :: string
  balance_i :: "real option"

text \<open>\<open>InsertTransaction\<close>: the account references are nullable and optional;
  \<open>None\<close> stands for both \<open>null\<close> and \<open>undefined\<close>, which \<open>?? null\<close> maps to
  \<open>null\<close>.\<close>

record InsertTransaction =
  type_i :: string
  fromAccountId_i :: "string option"
  toAccountId_i :: "string option"
  amount_i :: real

text \<open>\<open>TransactionWithDetails\<close>: a transaction and the two optional picks
  \<open>{accountNumber, name}\<close>.\<close>

record TransactionWithDetails =
  transaction_d :: Transaction
  fromAccount :: "(int \<times> string) option"
  toAccount :: "(int \<times> string) option"

record DashboardStats =
  totalAccounts :: nat
  totalDeposits :: string
  totalWithdrawals :: string
  activeTransfers :: nat

section \<open>Numbers of the runtime\<close>

text \<open>
  The \<open>+\<close> and \<open>-\<close> of two numbers are the exact sum and difference rounded to the
  nearest double, a tie going to the even significand (IEEE 754, binary64: 53 bits,
  the smallest step \<open>2\<^sup>-\<^sup>1\<^sup>0\<^sup>7\<^sup>4\<close>). \<open>rne\<close> rounds a real to the nearest integer, a
  tie to the even one; \<open>expo x\<close> is the exponent of the leading bit of \<open>x\<close>.
  A result of magnitude \<open>2\<^sup>1\<^sup>0\<^sup>2\<^sup>4\<close> or more is \<open>Infinity\<close> in the runtime; such results,
  and \<open>NaN\<close>, are outside this model, and \<open>finite_double\<close> marks the reals that are
  doubles.
\<close>

definition rne :: "real \<Rightarrow> int" where
  "rne r =
     (let f = \<lfloor>r\<rfloor>; d = r - of_int f
      in if d < 1 / 2 then f else if 1 / 2 < d then f + 1 else if even f then f else f + 1)"

definition expo :: "real \<Rightarrow> int" where
  "expo x =
     (if 1 \<le> \<bar>x\<bar> then bitlen \<lfloor>\<bar>x\<bar>\<rfloor> - 1 else - bitlen (\<lceil>1 / \<bar>x\<bar>\<rceil> - 1))"

definition round_to_double :: "real \<Rightarrow> real" where
  "round_to_double x =
     (if x = 0 then 0
      else let q = 2 powi (max (expo x) (- 1022) - 52) in of_int (rne (x / q)) * q)"

definition finite_double :: "real \<Rightarrow> bool" where
  "finite_double x \<longleftrightarrow> round_to_double x = x \<and> \<bar>x\<bar> < 2 ^ 1024"

definition js_add :: "real \<Rightarrow> real \<Rightarrow> real" where
  "js_add x y = round_to_double (x + y)"

definition js_sub :: "real \<Rightarrow> real \<Rightarrow> real" where
  "js_sub x y = round_to_double (x - y)"

section \<open>The in-memory store (class MemStorage)\<close>

text \<open>
  A JavaScript \<open>Map\<close> keeps its entries in insertion order: \<open>set\<close> on a key that is
  present replaces the entry where it stands, \<open>set\<close> on a new key appends, and
  \<open>values()\<close> walks the entries in that order. It is an association list here.
\<close>

fun map_set :: "'k \<Rightarrow> 'v \<Rightarrow> ('k \<times> 'v) list \<Rightarrow> ('k \<times> 'v) list" where
  "map_set k v [] = [(k, v)]"
| "map_set k v ((k', v') # m) =
     (if k' = k then (k, v) # m else (k', v') # map_set k v m)"

definition map_get :: "('k \<times> 'v) list \<Rightarrow> 'k \<Rightarrow> 'v option" where
  "map_get m k = map_of m k"

definition map_vals :: "('k \<times> 'v) list \<Rightarrow> 'v list" where
  "map_vals m = map snd m"

record MemStorage =
  accounts :: "(string \<times> Account) list"
  transactions :: "(string \<times> Transaction) list"

text \<open>The constructor.\<close>

definition MemStorage_new :: MemStorage where
  "MemStorage_new = \<lparr>accounts = [], transactions = []\<rparr>"

text \<open>
  \<open>randomUUID()\<close> and \<open>new Date()\<close> are inputs of the model: a \<open>stamp\<close> holds the
  two values one call of \<open>createAccount\<close> or \<open>createTransaction\<close> draws.
\<close>

record stamp =
  uuid :: string
  now :: int

text \<open>What the store throws: \<open>Error("Account n already exists")\<close> and
  \<open>Error("Account n not found")\<close>.\<close>

datatype storage_error = AlreadyExists int | NotFound int

definition getAccount :: "MemStorage \<Rightarrow> string \<Rightarrow> Account option" where
  "getAccount s i = map_get (accounts s) i"

definition getAccountByNumber :: "MemStorage \<Rightarrow> int \<Rightarrow> Account option" where
  "getAccountByNumber s n =
     List.find (\<lambda>account. accountNumber account = n) (map_vals (accounts s))"

definition createAccount ::
  "MemStorage \<Rightarrow> stamp \<Rightarrow> InsertAccount \<Rightarrow> storage_error + Account \<times> MemStorage" where
  "createAccount s e insertAccount =
     (case getAccountByNumber s (accountNumber_i insertAccount) of
        Some existing \<Rightarrow> Inl (AlreadyExists (accountNumber_i insertAccount))
      | None \<Rightarrow>
          (let account = \<lparr>id_a = uuid e,
                          accountNumber = accountNumber_i insertAccount,
                          name = name_i insertAccount,
                          balance = (case balance_i insertAccount of None \<Rightarrow> 0 | Some b \<Rightarrow> b),
                          createdAt_a = now e\<rparr>
           in Inr (account, s\<lparr>accounts := map_set (uuid e) account (accounts s)\<rparr>)))"

definition updateAccountBalance ::
  "MemStorage \<Rightarrow> int \<Rightarrow> real \<Rightarrow> storage_error + Account \<times> MemStorage" where
  "updateAccountBalance s n newBalance =
     (case getAccountByNumber s n of
        None \<Rightarrow> Inl (NotFound n)
      | Some account \<Rightarrow>
          (let updatedAccount = account\<lparr>balance := newBalance\<rparr>
           in Inr (updatedAccount,
                   s\<lparr>accounts := map_set (id_a account) updatedAccount (accounts s)\<rparr>)))"

text \<open>\<open>Array.prototype.sort\<close> is stable; the comparator \<open>a.accountNumber - b.accountNumber\<close>
  orders by ascending account number. \<^const>\<open>sort_key\<close> is a stable insertion sort.\<close>

definition getAllAccounts :: "MemStorage \<Rightarrow> Account list" where
  "getAllAccounts s = sort_key accountNumber (map_vals (accounts s))"

definition createTransaction ::
  "MemStorage \<Rightarrow> stamp \<Rightarrow> InsertTransaction \<Rightarrow> Transaction \<times> MemStorage" where
  "createTransaction s e insertTransaction =
     (let transaction = \<lparr>id_t = uuid e,
                          type_t = type_i insertTransaction,
                          fromAccountId = fromAccountId_i insertTransaction,
                          toAccountId = toAccountId_i insertTransaction,
                          amount = amount_i insertTransaction,
                          createdAt_t = now e\<rparr>
      in (transaction, s\<lparr>transactions := map_set (uuid e) transaction (transactions s)\<rparr>))"

text \<open>\<open>xs.slice(0, limit)\<close>: a negative \<open>limit\<close> counts from the end.\<close>

definition slice0 :: "'a list \<Rightarrow> int \<Rightarrow> 'a list" where
  "slice0 xs limit =
     (if limit < 0 then take (nat (int (length xs) + limit)) xs else take (nat limit) xs)"

text \<open>The annotation of one reference: \<open>if (transaction.fromAccountId)\<close> is false for
  \<open>null\<close> and for the empty string; a reference that \<open>getAccount\<close> does not find
  leaves the field unset.\<close>

definition details_of :: "MemStorage \<Rightarrow> string option \<Rightarrow> (int \<times> string) option" where
  "details_of s r =
     (case r of
        None \<Rightarrow> None
      | Some i \<Rightarrow>
          if i = [] then None
          else (case getAccount s i of
                  None \<Rightarrow> None
                | Some a \<Rightarrow> Some (accountNumber a, name a)))"

text \<open>The comparator \<open>b.createdAt.getTime() - a.createdAt.getTime()\<close> orders by
  descending creation time; the sort is stable.\<close>

definition getRecentTransactions :: "MemStorage \<Rightarrow> int \<Rightarrow> TransactionWithDetails list" where
  "getRecentTransactions s limit =
     (let txs = slice0 (sort_key (\<lambda>t. - createdAt_t t) (map_vals (transactions s))) limit
      in map (\<lambda>transaction.
                \<lparr>transaction_d = transaction,
                 fromAccount = details_of s (fromAccountId transaction),
                 toAccount = details_of s (toAccountId transaction)\<rparr>) txs)"

text \<open>\<open>Number.prototype.toLocaleString\<close> belongs to the runtime; it is a parameter.\<close>

definition getDashboardStats :: "(real \<Rightarrow> string) \<Rightarrow> MemStorage \<Rightarrow> DashboardStats" where
  "getDashboardStats toLocaleString s =
     (let accs = getAllAccounts s;
          txs = map_vals (transactions s);
          deposits = foldl (\<lambda>sum t. js_add sum (amount t)) 0
                       (filter (\<lambda>t. type_t t = ''deposit'') txs);
          withdrawals = foldl (\<lambda>sum t. js_add sum (amount t)) 0
                          (filter (\<lambda>t. type_t t = ''withdraw'') txs);
          transfers = length (filter (\<lambda>t. type_t t = ''transfer'') txs)
      in \<lparr>totalAccounts = length accs,
          totalDeposits = CHR ''$'' # toLocaleString deposits,
          totalWithdrawals = CHR ''$'' # toLocaleString withdrawals,
          activeTransfers = transfers\<rparr>)"

section \<open>The request handlers (registerRoutes)\<close>

text \<open>
  A handler answers with a status and a message, or with a payload. The failures are
  named after what they report:
  \<^item> \<open>InvalidInput\<close>: 400 "Invalid account data" (a \<open>ZodError\<close>), 400 "Amount must be positive";
  \<^item> \<open>DuplicateAccount\<close>: 400 "Account n already exists";
  \<^item> \<open>AccountNotFound\<close>: 404 "Account n not found", 404 "One or both accounts not found";
  \<^item> \<open>InsufficientFunds\<close>: 400 "Insufficient funds", 400 "Insufficient funds in source account";
  \<^item> \<open>SameAccountTransfer\<close>: 400 "Cannot transfer to the same account";
  \<^item> \<open>InternalError\<close>: 500, the handlers' last \<open>catch\<close>.

  A handler returns its answer and the store it leaves behind, also when it fails.
  The amount and the account numbers of a deposit, a withdrawal and a transfer are taken
  at their TypeScript types, a number each; only \<open>POST /api/accounts\<close> checks the types
  of its body, so only there the body is a record of JSON values.
\<close>

datatype failure =
  InvalidInput | DuplicateAccount | AccountNotFound | InsufficientFunds
  | SameAccountTransfer | InternalError

text \<open>A JSON value of a request body, as far as the account schema tells them apart.\<close>

datatype jsval = JUndefined | JNull | JBool bool | JNum real | JStr string

record account_body =
  accountNumber_b :: jsval
  name_b :: jsval
  balance_b :: jsval

text \<open>
  \<open>insertAccountSchema\<close> is generated from the table \<open>accounts\<close> without \<open>id\<close> and
  \<open>createdAt\<close>: \<open>accountNumber\<close> an integer number, \<open>name\<close> a string, \<open>balance\<close> a
  number or absent. The generator (drizzle-zod 0.7) bounds a number by the width of its
  column: 32 bits for \<open>integer\<close>, 24 bits for \<open>real\<close>. The table declares no sign or
  length check, so the schema has none. The result is \<open>None\<close> where \<open>parse\<close> throws a
  \<open>ZodError\<close>.
\<close>

definition insertAccountSchema_parse :: "account_body \<Rightarrow> InsertAccount option" where
  "insertAccountSchema_parse b =
     (case accountNumber_b b of
        JNum n \<Rightarrow>
          if of_int \<lfloor>n\<rfloor> = n \<and> - 2147483648 \<le> n \<and> n \<le> 2147483647 then
            (case name_b b of
               JStr nm \<Rightarrow>
                 (case balance_b b of
                    JNum bal \<Rightarrow>
                      if - 8388608 \<le> bal \<and> bal \<le> 8388607
                      then Some \<lparr>accountNumber_i = \<lfloor>n\<rfloor>, name_i = nm, balance_i = Some bal\<rparr>
                      else None
                  | JUndefined \<Rightarrow>
                      Some \<lparr>accountNumber_i = \<lfloor>n\<rfloor>, name_i = nm, balance_i = None\<rparr>
                  | _ \<Rightarrow> None)
             | _ \<Rightarrow> None)
          else None
      | _ \<Rightarrow> None)"

text \<open>In \<open>POST /api/accounts\<close> an \<open>Error\<close> of the store is answered with its message.\<close>

fun failure_of :: "storage_error \<Rightarrow> failure" where
  "failure_of (AlreadyExists n) = DuplicateAccount"
| "failure_of (NotFound n) = AccountNotFound"

text \<open>\<open>POST /api/accounts\<close>. The first stamp is drawn by \<open>createAccount\<close>, the second by
  \<open>createTransaction\<close>.\<close>

definition post_accounts ::
  "MemStorage \<Rightarrow> stamp \<Rightarrow> stamp \<Rightarrow> account_body \<Rightarrow> (failure + Account) \<times> MemStorage" where
  "post_accounts s e1 e2 body =
     (case insertAccountSchema_parse body of
        None \<Rightarrow> (Inl InvalidInput, s)
      | Some validatedData \<Rightarrow>
          (case createAccount s e1 validatedData of
             Inl err \<Rightarrow> (Inl (failure_of err), s)
           | Inr (account, s1) \<Rightarrow>
               if balance account > 0
               then (Inr account,
                     snd (createTransaction s1 e2
                            \<lparr>type_i = ''deposit'', fromAccountId_i = None,
                             toAccountId_i = Some (id_a account),
                             amount_i = balance account\<rparr>))
               else (Inr account, s1)))"

text \<open>\<open>POST /api/accounts/:accountNumber/deposit\<close>. The check \<open>!amount || amount <= 0\<close>
  on a number: zero is falsy.\<close>

definition post_deposit ::
  "MemStorage \<Rightarrow> stamp \<Rightarrow> int \<Rightarrow> real \<Rightarrow> (failure + Account \<times> real) \<times> MemStorage" where
  "post_deposit s e n amt =
     (if amt = 0 \<or> amt \<le> 0 then (Inl InvalidInput, s)
      else case getAccountByNumber s n of
        None \<Rightarrow> (Inl AccountNotFound, s)
      | Some account \<Rightarrow>
          (let newBalance = js_add (balance account) amt in
           case updateAccountBalance s n newBalance of
             Inl err \<Rightarrow> (Inl InternalError, s)
           | Inr (updatedAccount, s1) \<Rightarrow>
               (Inr (updatedAccount, newBalance),
                snd (createTransaction s1 e
                       \<lparr>type_i = ''deposit'', fromAccountId_i = None,
                        toAccountId_i = Some (id_a account), amount_i = amt\<rparr>))))"

text \<open>\<open>POST /api/accounts/:accountNumber/withdraw\<close>.\<close>

definition post_withdraw ::
  "MemStorage \<Rightarrow> stamp \<Rightarrow> int \<Rightarrow> real \<Rightarrow> (failure + Account \<times> real) \<times> MemStorage" where
  "post_withdraw s e n amt =
     (if amt = 0 \<or> amt \<le> 0 then (Inl InvalidInput, s)
      else case getAccountByNumber s n of
        None \<Rightarrow> (Inl AccountNotFound, s)
      | Some account \<Rightarrow>
          if balance account < amt then (Inl InsufficientFunds, s)
          else
            (let newBalance = js_sub (balance account) amt in
             case updateAccountBalance s n newBalance of
               Inl err \<Rightarrow> (Inl InternalError, s)
             | Inr (updatedAccount, s1) \<Rightarrow>
                 (Inr (updatedAccount, newBalance),
                  snd (createTransaction s1 e
                         \<lparr>type_i = ''withdraw'', fromAccountId_i = Some (id_a account),
                          toAccountId_i = None, amount_i = amt\<rparr>))))"

text \<open>\<open>POST /api/accounts/transfer\<close>. The two balances are written one after the other;
  a throw of the second write leaves the first in the store.\<close>

definition post_transfer ::
  "MemStorage \<Rightarrow> stamp \<Rightarrow> int \<Rightarrow> int \<Rightarrow> real \<Rightarrow> (failure + Account \<times> Account) \<times> MemStorage" where
  "post_transfer s e fromAccountNumber toAccountNumber amt =
     (if amt = 0 \<or> amt \<le> 0 then (Inl InvalidInput, s)
      else if fromAccountNumber = toAccountNumber then (Inl SameAccountTransfer, s)
      else case getAccountByNumber s fromAccountNumber of
        None \<Rightarrow> (Inl AccountNotFound, s)
      | Some fromAcc \<Rightarrow>
          (case getAccountByNumber s toAccountNumber of
             None \<Rightarrow> (Inl AccountNotFound, s)
           | Some toAcc \<Rightarrow>
               if balance fromAcc < amt then (Inl InsufficientFunds, s)
               else
                 (let newFromBalance = js_sub (balance fromAcc) amt;
                      newToBalance = js_add (balance toAcc) amt in
                  case updateAccountBalance s fromAccountNumber newFromBalance of
                    Inl err \<Rightarrow> (Inl InternalError, s)
                  | Inr (u1, s1) \<Rightarrow>
                      (case updateAccountBalance s1 toAccountNumber newToBalance of
                         Inl err \<Rightarrow> (Inl InternalError, s1)
                       | Inr (u2, s2) \<Rightarrow>
                           (Inr (fromAcc\<lparr>balance := newFromBalance\<rparr>,
                                 toAcc\<lparr>balance := newToBalance\<rparr>),
                            snd (createTransaction s2 e
                                   \<lparr>type_i = ''transfer'',
                                    fromAccountId_i = Some (id_a fromAcc),
                                    toAccountId_i = Some (id_a toAcc),
                                    amount_i = amt\<rparr>))))))"

section \<open>Sequences of requests\<close>

text \<open>The four mutating requests, each with the stamps its handler draws.\<close>

datatype request =
  PostAccounts stamp stamp account_body
  | PostDeposit stamp int real
  | PostWithdraw stamp int real
  | PostTransfer stamp int int real

text \<open>The store a request leaves behind, whether it is served or refused.\<close>

fun handle :: "MemStorage \<Rightarrow> request \<Rightarrow> MemStorage" where
  "handle s (PostAccounts e1 e2 body) = snd (post_accounts s e1 e2 body)"
| "handle s (PostDeposit e n amt) = snd (post_deposit s e n amt)"
| "handle s (PostWithdraw e n amt) = snd (post_withdraw s e n amt)"
| "handle s (PostTransfer e f t amt) = snd (post_transfer s e f t amt)"

definition run :: "MemStorage \<Rightarrow> request list \<Rightarrow> MemStorage" where
  "run s rs = foldl handle s rs"

text \<open>A sequence of transfers that all succeed: \<open>None\<close> as soon as one is refused.\<close>

fun transfers :: "MemStorage \<Rightarrow> (stamp \<times> int \<times> int \<times> real) list \<Rightarrow> MemStorage option" where
  "transfers s [] = Some s"
| "transfers s ((e, f, t, amt) # rs) =
     (case post_transfer s e f t amt of
        (Inl err, s') \<Rightarrow> None
      | (Inr r, s') \<Rightarrow> transfers s' rs)"

text \<open>A sequence of transfers in which no new balance is rounded: at each step the
  source's balance less the amount and the destination's balance plus the amount are
  finite doubles.\<close>

fun exact_transfers :: "MemStorage \<Rightarrow> (stamp \<times> int \<times> int \<times> real) list \<Rightarrow> bool" where
  "exact_transfers s [] = True"
| "exact_transfers s ((e, f, t, amt) # rs) =
     (case getAccountByNumber s f of
        None \<Rightarrow> False
      | Some fa \<Rightarrow>
          (case getAccountByNumber s t of
             None \<Rightarrow> False
           | Some ta \<Rightarrow>
               finite_double (balance fa - amt) \<and> finite_double (balance ta + amt)
               \<and> exact_transfers (snd (post_transfer s e f t amt)) rs))"

section \<open>Predicates of the statements\<close>

text \<open>
  The class writes its account map only by \<open>set(account.id, account)\<close>, so in every store
  it builds the entries are keyed by the identifier of the account they hold (and a
  \<open>Map\<close> has no key twice).
\<close>

definition keyed_by_id :: "MemStorage \<Rightarrow> bool" where
  "keyed_by_id s \<longleftrightarrow>
     distinct (map fst (accounts s)) \<and> list_all (\<lambda>(k, a). id_a a = k) (accounts s)"

text \<open>The account map with balance \<open>b\<close> in the entry of key \<open>i\<close> and nothing else
  touched.\<close>

definition set_balance ::
  "string \<Rightarrow> real \<Rightarrow> (string \<times> Account) list \<Rightarrow> (string \<times> Account) list" where
  "set_balance i b m = map (\<lambda>(k, a). if k = i then (k, a\<lparr>balance := b\<rparr>) else (k, a)) m"

definition sum_balances :: "MemStorage \<Rightarrow> real" where
  "sum_balances s = sum_list (map (\<lambda>(k, a). balance a) (accounts s))"

text \<open>Two accounts that agree on every field but the balance.\<close>

definition same_but_balance :: "Account \<Rightarrow> Account \<Rightarrow> bool" where
  "same_but_balance a a' \<longleftrightarrow>
     id_a a' = id_a a \<and> accountNumber a' = accountNumber a \<and> name a' = name a
     \<and> createdAt_a a' = createdAt_a a"

text \<open>
  \<open>frame_accounts T m m'\<close>: the map \<open>m'\<close> has the entries of \<open>m\<close> under the same keys
  in the same order; each account kept every field but, at most, its balance; and an
  account whose key is not in \<open>T\<close> is the same record as before.
\<close>

definition frame_accounts ::
  "string set \<Rightarrow> (string \<times> Account) list \<Rightarrow> (string \<times> Account) list \<Rightarrow> bool" where
  "frame_accounts T m m' \<longleftrightarrow>
     list_all2 (\<lambda>(k, a) (k', a'). k' = k \<and> same_but_balance a a' \<and> (k \<notin> T \<longrightarrow> a' = a)) m m'"

section \<open>Example stores\<close>

text \<open>Account 1 of Alice with 100 and account 2 of Bob with 0, created through the handler.\<close>

definition alice_body :: account_body where
  "alice_body = \<lparr>accountNumber_b = JNum 1, name_b = JStr ''Alice'', balance_b = JNum 100\<rparr>"

definition bob_body :: account_body where
  "bob_body = \<lparr>accountNumber_b = JNum 2, name_b = JStr ''Bob'', balance_b = JNum 0\<rparr>"

definition two_accounts :: MemStorage where
  "two_accounts =
     run MemStorage_new
       [PostAccounts \<lparr>uuid = ''a1'', now = 1\<rparr> \<lparr>uuid = ''t1'', now = 1\<rparr> alice_body,
        PostAccounts \<lparr>uuid = ''a2'', now = 2\<rparr> \<lparr>uuid = ''t2'', now = 2\<rparr> bob_body]"

text \<open>The same store after a deposit and a withdrawal stamped with the same time and a
  transfer stamped earlier.\<close>

definition busy_store :: MemStorage where
  "busy_store =
     run two_accounts
       [PostDeposit \<lparr>uuid = ''t3'', now = 5\<rparr> 1 50,
        PostWithdraw \<lparr>uuid = ''t4'', now = 5\<rparr> 1 10,
        PostTransfer \<lparr>uuid = ''t5'', now = 3\<rparr> 1 2 40]"

text \<open>The store \<open>two_accounts\<close> after a transfer of 40 from account 1 to account 2 and
  one of 15 back.\<close>

definition two_accounts_after :: MemStorage where
  "two_accounts_after =
     \<lparr>accounts =
        [(''a1'', \<lparr>id_a = ''a1'', accountNumber = 1, name = ''Alice'', balance = 75, createdAt_a = 1\<rparr>),
         (''a2'', \<lparr>id_a = ''a2'', accountNumber = 2, name = ''Bob'', balance = 25, createdAt_a = 2\<rparr>)],
      transactions =
        [(''t1'', \<lparr>id_t = ''t1'', type_t = ''deposit'', fromAccountId = None,
                   toAccountId = Some ''a1'', amount = 100, createdAt_t = 1\<rparr>),
         (''t3'', \<lparr>id_t = ''t3'', type_t = ''transfer'', fromAccountId = Some ''a1'',
                   toAccountId = Some ''a2'', amount = 40, createdAt_t = 3\<rparr>),
         (''t4'', \<lparr>id_t = ''t4'', type_t = ''transfer'', fromAccountId = Some ''a2'',
                   toAccountId = Some ''a1'', amount = 15, createdAt_t = 4\<rparr>)]\<rparr>"

text \<open>The two accounts after a deposit of \<open>2\<^sup>5\<^sup>3\<close> into account 2, and that store after
  a transfer of 1 from account 1 to account 2.\<close>

definition big_store :: MemStorage where
  "big_store = run two_accounts [PostDeposit \<lparr>uuid = ''t3'', now = 3\<rparr> 2 9007199254740992]"

definition big_store_after :: MemStorage where
  "big_store_after =
     \<lparr>accounts =
        [(''a1'', \<lparr>id_a = ''a1'', accountNumber = 1, name = ''Alice'', balance = 99, createdAt_a = 1\<rparr>),
         (''a2'', \<lparr>id_a = ''a2'', accountNumber = 2, name = ''Bob'', balance = 9007199254740992,
                   createdAt_a = 2\<rparr>)],
      transactions =
        [(''t1'', \<lparr>id_t = ''t1'', type_t = ''deposit'', fromAccountId = None,
                   toAccountId = Some ''a1'', amount = 100, createdAt_t = 1\<rparr>),
         (''t3'', \<lparr>id_t = ''t3'', type_t = ''deposit'', fromAccountId = None,
                   toAccountId = Some ''a2'', amount = 9007199254740992, createdAt_t = 3\<rparr>),
         (''t4'', \<lparr>id_t = ''t4'', type_t = ''transfer'', fromAccountId = Some ''a1'',
                   toAccountId = Some ''a2'', amount = 1, createdAt_t = 4\<rparr>)]\<rparr>"

section \<open>Rounding, evaluated\<close>

text \<open>Three sums of doubles as the runtime computes them: \<open>2\<^sup>5\<^sup>3 + 1\<close>,
  \<open>0.1 + 0.2\<close> (which is \<open>0.30000000000000004\<close>) and \<open>10\<^sup>1\<^sup>6 + 1\<close>.\<close>

lemma round_to_double_examples:
  "js_add 9007199254740992 1 = 9007199254740992"
  "js_add (3602879701896397 / 2 ^ 55) (3602879701896397 / 2 ^ 54) = 5404319552844596 / 2 ^ 54"
  "js_add 10000000000000000 1 = 10000000000000000"
  by (simp_all add: js_add_def round_to_double_def expo_def rne_def compute_bitlen Let_def)

section \<open>The map operations\<close>

lemma map_set_absent: "k \<notin> fst ` set m \<Longrightarrow> map_set k v m = m @ [(k, v)]"
  by (induction m) auto

lemma map_of_map_set: "map_of (map_set k v m) = (map_of m)(k \<mapsto> v)"
  by (induction m) auto

lemma map_fst_set_balance: "map fst (set_balance i b m) = map fst m"
  by (induction m) (auto simp: set_balance_def)

lemma set_balance_Nil: "set_balance i b [] = []"
  by (simp add: set_balance_def)

lemma set_balance_Cons:
  "set_balance i b ((k, a) # m) =
     (if k = i then (k, a\<lparr>balance := b\<rparr>) else (k, a)) # set_balance i b m"
  by (simp add: set_balance_def)

lemma list_all_set_balance:
  "list_all (\<lambda>(k, a). id_a a = k) m \<Longrightarrow> list_all (\<lambda>(k, a). id_a a = k) (set_balance i b m)"
proof (induction m)
  case Nil
  then show ?case by (simp add: set_balance_Nil)
next
  case (Cons p m)
  obtain k a where p: "p = (k, a)" by (cases p)
  with Cons show ?case by (simp add: set_balance_Cons)
qed

lemma find_set_balance:
  "list_all (\<lambda>(k, a). id_a a = k) m \<Longrightarrow>
   List.find (\<lambda>a. accountNumber a = n) (map snd (set_balance i b m)) =
   map_option (\<lambda>a. if id_a a = i then a\<lparr>balance := b\<rparr> else a)
     (List.find (\<lambda>a. accountNumber a = n) (map snd m))"
proof (induction m)
  case Nil
  then show ?case by (simp add: set_balance_Nil)
next
  case (Cons p m)
  obtain k a where p: "p = (k, a)" by (cases p)
  with Cons.prems have k: "id_a a = k" and rest: "list_all (\<lambda>(k, a). id_a a = k) m"
    by simp_all
  from Cons.IH [OF rest] p k show ?case
    by (simp add: set_balance_Cons)
qed

lemma fst_set_map_set: "fst ` set (map_set k v m) = insert k (fst ` set m)"
proof (induction m)
  case Nil
  then show ?case by simp
next
  case (Cons p m)
  obtain k' v' where p: "p = (k', v')" by (cases p)
  with Cons show ?case by (cases "k' = k") auto
qed

lemma distinct_map_set: "distinct (map fst m) \<Longrightarrow> distinct (map fst (map_set k v m))"
proof (induction m)
  case Nil
  then show ?case by simp
next
  case (Cons p m)
  obtain k' v' where p: "p = (k', v')" by (cases p)
  with Cons show ?case
    using fst_set_map_set [of k v m] by (cases "k' = k") auto
qed

lemma list_all_map_set:
  "list_all P m \<Longrightarrow> P (k, v) \<Longrightarrow> list_all P (map_set k v m)"
  by (induction m) auto

lemma set_balance_absent: "i \<notin> fst ` set m \<Longrightarrow> set_balance i b m = m"
  by (induction m) (auto simp: set_balance_def)

lemma head_entry:
  assumes "distinct (map fst ((i, a') # m))" and "(i, a) \<in> set ((i, a') # m)"
  shows "a' = a \<and> i \<notin> fst ` set m"
proof -
  from assms(1) have notin: "i \<notin> fst ` set m" by simp
  then have "(i, a) \<notin> set m" by (metis fst_conv imageI)
  with assms(2) notin show ?thesis by simp
qed

lemma map_set_present:
  "distinct (map fst m) \<Longrightarrow> (i, a) \<in> set m \<Longrightarrow>
   map_set i (a\<lparr>balance := b\<rparr>) m = set_balance i b m"
proof (induction m)
  case Nil
  then show ?case by simp
next
  case (Cons p m)
  obtain k a' where p: "p = (k, a')" by (cases p)
  show ?case
  proof (cases "k = i")
    case True
    from Cons.prems p True have "a' = a \<and> i \<notin> fst ` set m"
      using head_entry [of i a' m a] by simp
    with True p show ?thesis
      using set_balance_absent [of i m b] by (simp add: set_balance_def)
  next
    case False
    with Cons.prems p have "distinct (map fst m)" and "(i, a) \<in> set m" by simp_all
    with Cons.IH have "map_set i (a\<lparr>balance := b\<rparr>) m = set_balance i b m" by simp
    with False p show ?thesis by (simp add: set_balance_def)
  qed
qed

lemma sum_set_balance:
  "distinct (map fst m) \<Longrightarrow> (i, a) \<in> set m \<Longrightarrow>
   sum_list (map (\<lambda>(k, a). balance a) (set_balance i b m)) =
   sum_list (map (\<lambda>(k, a). balance a) m) - balance a + b"
proof (induction m)
  case Nil
  then show ?case by simp
next
  case (Cons p m)
  obtain k a' where p: "p = (k, a')" by (cases p)
  show ?case
  proof (cases "k = i")
    case True
    from Cons.prems p True have "a' = a \<and> i \<notin> fst ` set m"
      using head_entry [of i a' m a] by simp
    with True p show ?thesis
      using set_balance_absent [of i m b] by (simp add: set_balance_def)
  next
    case False
    with Cons.prems p have "distinct (map fst m)" and "(i, a) \<in> set m" by simp_all
    with Cons.IH have "sum_list (map (\<lambda>(k, a). balance a) (set_balance i b m)) =
      sum_list (map (\<lambda>(k, a). balance a) m) - balance a + b" by simp
    with False p show ?thesis by (simp add: set_balance_def)
  qed
qed

lemma found_in_store:
  "getAccountByNumber s n = Some a \<Longrightarrow> a \<in> snd ` set (accounts s) \<and> accountNumber a = n"
  by (auto simp: getAccountByNumber_def map_vals_def find_Some_iff)

lemma found_keyed:
  "keyed_by_id s \<Longrightarrow> getAccountByNumber s n = Some a \<Longrightarrow> (id_a a, a) \<in> set (accounts s)"
  using found_in_store [of s n a] by (auto simp: keyed_by_id_def list_all_iff)

section \<open>What a served request writes\<close>

lemma updateAccountBalance_keyed:
  assumes "keyed_by_id s" and "getAccountByNumber s n = Some a"
  shows "updateAccountBalance s n b =
         Inr (a\<lparr>balance := b\<rparr>, s\<lparr>accounts := set_balance (id_a a) b (accounts s)\<rparr>)"
proof -
  from assms have "(id_a a, a) \<in> set (accounts s)" by (rule found_keyed)
  moreover from assms(1) have "distinct (map fst (accounts s))" by (simp add: keyed_by_id_def)
  ultimately have "map_set (id_a a) (a\<lparr>balance := b\<rparr>) (accounts s) = set_balance (id_a a) b (accounts s)"
    by (simp add: map_set_present)
  with assms(2) show ?thesis by (simp add: updateAccountBalance_def)
qed

lemma keyed_set_balance:
  "keyed_by_id s \<Longrightarrow> keyed_by_id (s\<lparr>accounts := set_balance i b (accounts s)\<rparr>)"
  by (simp add: keyed_by_id_def map_fst_set_balance list_all_set_balance)

lemma getAccountByNumber_set_balance:
  "keyed_by_id s \<Longrightarrow>
   getAccountByNumber (s\<lparr>accounts := set_balance i b (accounts s)\<rparr>) n =
   map_option (\<lambda>a. if id_a a = i then a\<lparr>balance := b\<rparr> else a) (getAccountByNumber s n)"
  by (simp add: getAccountByNumber_def map_vals_def keyed_by_id_def find_set_balance)

lemma distinct_ids:
  assumes "keyed_by_id s"
    and "getAccountByNumber s f = Some fa" and "getAccountByNumber s t = Some ta"
    and "f \<noteq> t"
  shows "id_a fa \<noteq> id_a ta"
proof
  assume eq: "id_a fa = id_a ta"
  from assms(1,2) have "(id_a fa, fa) \<in> set (accounts s)" by (rule found_keyed)
  moreover from assms(1,3) eq have "(id_a fa, ta) \<in> set (accounts s)"
    using found_keyed [of s t ta] by simp
  moreover from assms(1) have "distinct (map fst (accounts s))" by (simp add: keyed_by_id_def)
  ultimately have "fa = ta" by (rule eq_key_imp_eq_value [rotated])
  with assms(2,3,4) show False
    using found_in_store [of s f fa] found_in_store [of s t ta] by simp
qed

lemma createTransaction_store:
  "snd (createTransaction s e i) =
     s\<lparr>transactions := map_set (uuid e)
         \<lparr>id_t = uuid e, type_t = type_i i, fromAccountId = fromAccountId_i i,
          toAccountId = toAccountId_i i, amount = amount_i i, createdAt_t = now e\<rparr>
         (transactions s)\<rparr>"
  by (simp add: createTransaction_def Let_def)

lemma post_deposit_served:
  assumes "keyed_by_id s" and "0 < amt" and "getAccountByNumber s n = Some a"
  shows "post_deposit s e n amt =
         (Inr (a\<lparr>balance := js_add (balance a) amt\<rparr>, js_add (balance a) amt),
          \<lparr>accounts = set_balance (id_a a) (js_add (balance a) amt) (accounts s),
           transactions = map_set (uuid e)
             \<lparr>id_t = uuid e, type_t = ''deposit'', fromAccountId = None,
              toAccountId = Some (id_a a), amount = amt, createdAt_t = now e\<rparr>
             (transactions s)\<rparr>)"
  using assms updateAccountBalance_keyed [OF assms(1,3), of "js_add (balance a) amt"]
  by (simp add: post_deposit_def Let_def createTransaction_store)

lemma post_withdraw_served:
  assumes "keyed_by_id s" and "0 < amt" and "getAccountByNumber s n = Some a"
    and "amt \<le> balance a"
  shows "post_withdraw s e n amt =
         (Inr (a\<lparr>balance := js_sub (balance a) amt\<rparr>, js_sub (balance a) amt),
          \<lparr>accounts = set_balance (id_a a) (js_sub (balance a) amt) (accounts s),
           transactions = map_set (uuid e)
             \<lparr>id_t = uuid e, type_t = ''withdraw'', fromAccountId = Some (id_a a),
              toAccountId = None, amount = amt, createdAt_t = now e\<rparr>
             (transactions s)\<rparr>)"
  using assms updateAccountBalance_keyed [OF assms(1,3), of "js_sub (balance a) amt"]
  by (simp add: post_withdraw_def Let_def createTransaction_store)

lemma post_transfer_served:
  assumes "keyed_by_id s" and "0 < amt" and "f \<noteq> t"
    and "getAccountByNumber s f = Some fa" and "getAccountByNumber s t = Some ta"
    and "amt \<le> balance fa"
  shows "post_transfer s e f t amt =
         (Inr (fa\<lparr>balance := js_sub (balance fa) amt\<rparr>, ta\<lparr>balance := js_add (balance ta) amt\<rparr>),
          \<lparr>accounts = set_balance (id_a ta) (js_add (balance ta) amt)
                        (set_balance (id_a fa) (js_sub (balance fa) amt) (accounts s)),
           transactions = map_set (uuid e)
             \<lparr>id_t = uuid e, type_t = ''transfer'', fromAccountId = Some (id_a fa),
              toAccountId = Some (id_a ta), amount = amt, createdAt_t = now e\<rparr>
             (transactions s)\<rparr>)"
proof -
  let ?s1 = "s\<lparr>accounts := set_balance (id_a fa) (js_sub (balance fa) amt) (accounts s)\<rparr>"
  have u1: "updateAccountBalance s f (js_sub (balance fa) amt) = Inr (fa\<lparr>balance := js_sub (balance fa) amt\<rparr>, ?s1)"
    using assms(1,4) by (rule updateAccountBalance_keyed)
  have k1: "keyed_by_id ?s1" using assms(1) by (rule keyed_set_balance)
  have ids: "id_a fa \<noteq> id_a ta" using assms(1,4,5,3) by (rule distinct_ids)
  have g1: "getAccountByNumber ?s1 t = Some ta"
    using assms(1,5) ids by (simp add: getAccountByNumber_set_balance)
  have u2: "updateAccountBalance ?s1 t (js_add (balance ta) amt) =
            Inr (ta\<lparr>balance := js_add (balance ta) amt\<rparr>,
                 ?s1\<lparr>accounts := set_balance (id_a ta) (js_add (balance ta) amt) (accounts ?s1)\<rparr>)"
    using k1 g1 by (rule updateAccountBalance_keyed)
  from assms(2,3,4,5,6) u1 u2 show ?thesis
    by (simp add: post_transfer_def Let_def createTransaction_store)
qed

lemma post_deposit_Inr:
  "post_deposit s e n amt = (Inr r, s') \<Longrightarrow>
   0 < amt \<and> (\<exists>a. getAccountByNumber s n = Some a)"
  by (simp add: post_deposit_def Let_def split: if_splits option.splits sum.splits prod.splits)

lemma post_withdraw_Inr:
  "post_withdraw s e n amt = (Inr r, s') \<Longrightarrow>
   0 < amt \<and> (\<exists>a. getAccountByNumber s n = Some a \<and> amt \<le> balance a)"
  by (simp add: post_withdraw_def Let_def split: if_splits option.splits sum.splits prod.splits)

lemma post_transfer_Inr:
  "post_transfer s e f t amt = (Inr r, s') \<Longrightarrow>
   0 < amt \<and> f \<noteq> t \<and>
   (\<exists>fa ta. getAccountByNumber s f = Some fa \<and> getAccountByNumber s t = Some ta
      \<and> amt \<le> balance fa)"
  by (simp add: post_transfer_def Let_def split: if_splits option.splits sum.splits prod.splits)

lemma in_set_balance_other:
  "(k, a) \<in> set m \<Longrightarrow> k \<noteq> i \<Longrightarrow> (k, a) \<in> set (set_balance i b m)"
  by (force simp: set_balance_def)

lemma frame_set_balance: "frame_accounts {i} m (set_balance i b m)"
  by (simp add: frame_accounts_def set_balance_def list_all2_map2 list_all2_same
      same_but_balance_def split: prod.splits)

lemma frame_set_balance2:
  "frame_accounts {i, j} m (set_balance j c (set_balance i b m))"
  by (simp add: frame_accounts_def set_balance_def list_all2_map2 list_all2_same
      same_but_balance_def split: prod.splits)

section \<open>Creating accounts\<close>

lemma in_set_map_set: "(k, v) \<in> set (map_set k v m)"
  by (induction m) auto

lemma created_account:
  assumes "createAccount s e i = Inr (a, s1)"
  shows "getAccountByNumber s1 (accountNumber_i i) \<noteq> None"
    and "getAccount s1 (id_a a) = Some a"
    and "accountNumber a = accountNumber_i i"
proof -
  from assms have a: "a = \<lparr>id_a = uuid e, accountNumber = accountNumber_i i, name = name_i i,
        balance = (case balance_i i of None \<Rightarrow> 0 | Some b \<Rightarrow> b), createdAt_a = now e\<rparr>"
    and s1: "accounts s1 = map_set (uuid e) a (accounts s)"
    by (auto simp: createAccount_def Let_def split: option.splits)
  from a show "accountNumber a = accountNumber_i i" by simp
  from a s1 show "getAccount s1 (id_a a) = Some a"
    by (simp add: getAccount_def map_get_def map_of_map_set)
  have an: "accountNumber a = accountNumber_i i" using a by simp
  have mem: "a \<in> set (map_vals (accounts s1))"
    using s1 in_set_map_set [of "uuid e" a "accounts s"] by (force simp: map_vals_def)
  show "getAccountByNumber s1 (accountNumber_i i) \<noteq> None"
    unfolding getAccountByNumber_def find_None_iff using mem an by blast
qed

lemma createTransaction_accounts: "accounts (snd (createTransaction s e i)) = accounts s"
  by (simp add: createTransaction_def Let_def)

lemma getAccountByNumber_accounts:
  "accounts s' = accounts s \<Longrightarrow> getAccountByNumber s' n = getAccountByNumber s n"
  by (simp add: getAccountByNumber_def)

lemma getAccount_accounts:
  "accounts s' = accounts s \<Longrightarrow> getAccount s' i = getAccount s i"
  by (simp add: getAccount_def)

lemma post_accounts_Inr:
  assumes "post_accounts s e1 e2 body = (Inr a, s')"
  shows "\<exists>i s1. insertAccountSchema_parse body = Some i \<and> createAccount s e1 i = Inr (a, s1)
           \<and> accounts s' = accounts s1"
  using assms
  by (auto simp: post_accounts_def createTransaction_accounts
      split: option.splits sum.splits prod.splits if_splits)

section \<open>Stores the class builds\<close>

text \<open>
  A refused request leaves the store as it was, and every request keeps the account map
  keyed by identifier: \<^const>\<open>keyed_by_id\<close> holds in every store reachable from the
  constructor's.
\<close>

lemma keyed_new: "keyed_by_id MemStorage_new"
  by (simp add: keyed_by_id_def MemStorage_new_def)

lemma keyed_accounts_eq: "accounts s' = accounts s \<Longrightarrow> keyed_by_id s' = keyed_by_id s"
  by (simp add: keyed_by_id_def)

lemma createAccount_keyed:
  assumes "keyed_by_id s" and "createAccount s e i = Inr (a, s1)"
  shows "keyed_by_id s1"
proof -
  from assms(2) have a: "id_a a = uuid e"
    and s1: "accounts s1 = map_set (uuid e) a (accounts s)"
    by (auto simp: createAccount_def Let_def split: option.splits)
  from assms(1) have "distinct (map fst (accounts s))"
    and "list_all (\<lambda>(k, a). id_a a = k) (accounts s)"
    by (simp_all add: keyed_by_id_def)
  with a s1 show ?thesis
    by (simp add: keyed_by_id_def distinct_map_set list_all_map_set)
qed

lemma post_accounts_Inl: "post_accounts s e1 e2 body = (Inl err, s') \<Longrightarrow> s' = s"
  by (auto simp: post_accounts_def split: option.splits sum.splits prod.splits if_splits)

lemma post_deposit_Inl: "post_deposit s e n amt = (Inl err, s') \<Longrightarrow> s' = s"
  by (auto simp: post_deposit_def Let_def split: option.splits sum.splits prod.splits if_splits)

lemma post_withdraw_Inl: "post_withdraw s e n amt = (Inl err, s') \<Longrightarrow> s' = s"
  by (auto simp: post_withdraw_def Let_def split: option.splits sum.splits prod.splits if_splits)

lemma post_transfer_Inl:
  assumes "keyed_by_id s" and "post_transfer s e f t amt = (Inl err, s')"
  shows "s' = s"
proof (cases "0 < amt \<and> f \<noteq> t")
  case False
  with assms(2) show ?thesis by (auto simp: post_transfer_def split: if_splits)
next
  case True
  show ?thesis
  proof (cases "getAccountByNumber s f")
    case None
    with True assms(2) show ?thesis by (simp add: post_transfer_def)
  next
    case (Some fa)
    show ?thesis
    proof (cases "getAccountByNumber s t")
      case None
      with True Some assms(2) show ?thesis by (simp add: post_transfer_def)
    next
      case ta: (Some ta)
      show ?thesis
      proof (cases "balance fa < amt")
        case True
        with \<open>0 < amt \<and> f \<noteq> t\<close> Some ta assms(2) show ?thesis
          by (simp add: post_transfer_def)
      next
        case False
        with post_transfer_served [OF assms(1) _ _ Some ta, of amt e] \<open>0 < amt \<and> f \<noteq> t\<close> assms(2)
        show ?thesis by simp
      qed
    qed
  qed
qed

lemma post_deposit_effect:
  assumes "keyed_by_id s" and "post_deposit s e n amt = (Inr r, s')"
  shows "\<exists>a. getAccountByNumber s n = Some a \<and> 0 < amt
           \<and> accounts s' = set_balance (id_a a) (js_add (balance a) amt) (accounts s)"
proof -
  from assms(2) obtain a where h: "0 < amt" "getAccountByNumber s n = Some a"
    using post_deposit_Inr by blast
  from post_deposit_served [OF assms(1) h, of e] assms(2)
  have "accounts s' = set_balance (id_a a) (js_add (balance a) amt) (accounts s)" by auto
  with h show ?thesis by blast
qed

lemma post_withdraw_effect:
  assumes "keyed_by_id s" and "post_withdraw s e n amt = (Inr r, s')"
  shows "\<exists>a. getAccountByNumber s n = Some a \<and> amt \<le> balance a
           \<and> accounts s' = set_balance (id_a a) (js_sub (balance a) amt) (accounts s)"
proof -
  from assms(2) obtain a where h: "0 < amt" "getAccountByNumber s n = Some a" "amt \<le> balance a"
    using post_withdraw_Inr by blast
  from post_withdraw_served [OF assms(1) h, of e] assms(2)
  have "accounts s' = set_balance (id_a a) (js_sub (balance a) amt) (accounts s)" by auto
  with h show ?thesis by blast
qed

lemma post_transfer_effect:
  assumes "keyed_by_id s" and "post_transfer s e f t amt = (Inr r, s')"
  shows "\<exists>fa ta. getAccountByNumber s f = Some fa \<and> getAccountByNumber s t = Some ta
           \<and> 0 < amt \<and> amt \<le> balance fa
           \<and> accounts s' = set_balance (id_a ta) (js_add (balance ta) amt)
                              (set_balance (id_a fa) (js_sub (balance fa) amt) (accounts s))"
proof -
  from assms(2) obtain fa ta where h: "0 < amt" "f \<noteq> t"
    "getAccountByNumber s f = Some fa" "getAccountByNumber s t = Some ta" "amt \<le> balance fa"
    using post_transfer_Inr by blast
  from post_transfer_served [OF assms(1) h, of e] assms(2)
  have "accounts s' = set_balance (id_a ta) (js_add (balance ta) amt)
                              (set_balance (id_a fa) (js_sub (balance fa) amt) (accounts s))" by auto
  with h show ?thesis by blast
qed

lemma keyed_set_balance_eq:
  "keyed_by_id s \<Longrightarrow> accounts s' = set_balance i b (accounts s) \<Longrightarrow> keyed_by_id s'"
  by (simp add: keyed_by_id_def map_fst_set_balance list_all_set_balance)

lemma keyed_handle: "keyed_by_id s \<Longrightarrow> keyed_by_id (handle s req)"
proof (cases req)
  case (PostAccounts e1 e2 body)
  assume k: "keyed_by_id s"
  obtain x s' where p: "post_accounts s e1 e2 body = (x, s')" by (cases "post_accounts s e1 e2 body")
  show ?thesis
  proof (cases x)
    case (Inl err)
    with p k PostAccounts show ?thesis using post_accounts_Inl [of s e1 e2 body err s'] by simp
  next
    case (Inr a)
    with p obtain i s1 where "createAccount s e1 i = Inr (a, s1)" and "accounts s' = accounts s1"
      using post_accounts_Inr [of s e1 e2 body a s'] by blast
    with k p PostAccounts show ?thesis
      using createAccount_keyed [of s e1 i a s1] keyed_accounts_eq [of s' s1] by simp
  qed
next
  case (PostDeposit e n amt)
  assume k: "keyed_by_id s"
  obtain x s' where p: "post_deposit s e n amt = (x, s')" by (cases "post_deposit s e n amt")
  show ?thesis
  proof (cases x)
    case (Inl err)
    with p k PostDeposit show ?thesis using post_deposit_Inl [of s e n amt err s'] by simp
  next
    case (Inr r)
    from p Inr have p': "post_deposit s e n amt = (Inr r, s')" by simp
    from post_deposit_effect [OF k p'] obtain a :: Account where "accounts s' = set_balance (id_a a) (js_add (balance a) amt) (accounts s)"
      by blast
    with k have "keyed_by_id s'" by (rule keyed_set_balance_eq)
    with p PostDeposit show ?thesis by simp
  qed
next
  case (PostWithdraw e n amt)
  assume k: "keyed_by_id s"
  obtain x s' where p: "post_withdraw s e n amt = (x, s')" by (cases "post_withdraw s e n amt")
  show ?thesis
  proof (cases x)
    case (Inl err)
    with p k PostWithdraw show ?thesis using post_withdraw_Inl [of s e n amt err s'] by simp
  next
    case (Inr r)
    from p Inr have p': "post_withdraw s e n amt = (Inr r, s')" by simp
    from post_withdraw_effect [OF k p'] obtain a :: Account where "accounts s' = set_balance (id_a a) (js_sub (balance a) amt) (accounts s)"
      by blast
    with k have "keyed_by_id s'" by (rule keyed_set_balance_eq)
    with p PostWithdraw show ?thesis by simp
  qed
next
  case (PostTransfer e f t amt)
  assume k: "keyed_by_id s"
  obtain x s' where p: "post_transfer s e f t amt = (x, s')" by (cases "post_transfer s e f t amt")
  show ?thesis
  proof (cases x)
    case (Inl err)
    with p k PostTransfer show ?thesis using post_transfer_Inl [of s e f t amt err s'] by simp
  next
    case (Inr r)
    from p Inr have p': "post_transfer s e f t amt = (Inr r, s')" by simp
    from post_transfer_effect [OF k p'] obtain fa ta :: Account where
      "accounts s' = set_balance (id_a ta) (js_add (balance ta) amt)
                       (set_balance (id_a fa) (js_sub (balance fa) amt) (accounts s))"
      by blast
    with k have "keyed_by_id s'"
      by (simp add: keyed_by_id_def map_fst_set_balance list_all_set_balance)
    with p PostTransfer show ?thesis by simp
  qed
qed

lemma keyed_run: "keyed_by_id s \<Longrightarrow> keyed_by_id (run s rs)"
  unfolding run_def by (induction rs arbitrary: s) (simp_all add: keyed_handle)

lemma keyed_reachable: "keyed_by_id (run MemStorage_new rs)"
  by (rule keyed_run [OF keyed_new])


section \<open>Reading the transactions\<close>

lemma details_found:
  "r \<noteq> Some [] \<Longrightarrow>
   details_of s r =
     (case r of None \<Rightarrow> None
      | Some i \<Rightarrow> map_option (\<lambda>a. (accountNumber a, name a)) (map_of (accounts s) i))"
  by (simp add: details_of_def getAccount_def map_get_def split: option.splits)

lemma newest_first_sorted:
  "sorted_wrt (\<lambda>a b. createdAt_t b \<le> createdAt_t a) (sort_key (\<lambda>t. - createdAt_t t) ts)"
proof -
  have "sorted (map (\<lambda>t. - createdAt_t t) (sort_key (\<lambda>t. - createdAt_t t) ts))"
    by (rule sorted_sort_key)
  then show ?thesis by (simp add: sorted_map)
qed

lemma take_newest:
  assumes "sorted_wrt (\<lambda>a b. createdAt_t b \<le> createdAt_t a) xs"
  shows "\<forall>t \<in> set (take n xs). \<forall>u \<in> set (drop n xs). createdAt_t u \<le> createdAt_t t"
proof -
  from assms have "sorted_wrt (\<lambda>a b. createdAt_t b \<le> createdAt_t a) (take n xs @ drop n xs)"
    by simp
  then show ?thesis unfolding sorted_wrt_append by blast
qed

lemma ties_in_insertion_order:
  "prefix (filter (\<lambda>t. createdAt_t t = k) (take n (sort_key (\<lambda>t. - createdAt_t t) ts)))
          (filter (\<lambda>t. createdAt_t t = k) ts)"
proof -
  let ?xs = "sort_key (\<lambda>t. - createdAt_t t) ts"
  have "filter (\<lambda>t. - createdAt_t t = - k) ?xs = filter (\<lambda>t. - createdAt_t t = - k) ts"
    by (rule sort_key_stable)
  then have st: "filter (\<lambda>t. createdAt_t t = k) ?xs = filter (\<lambda>t. createdAt_t t = k) ts"
    by simp
  have "filter (\<lambda>t. createdAt_t t = k) ?xs =
        filter (\<lambda>t. createdAt_t t = k) (take n ?xs) @ filter (\<lambda>t. createdAt_t t = k) (drop n ?xs)"
    by (metis append_take_drop_id filter_append)
  with st show ?thesis by (metis prefixI)
qed

lemma transactions_of_recent:
  "0 \<le> limit \<Longrightarrow>
   map transaction_d (getRecentTransactions s limit) =
     take (nat limit) (sort_key (\<lambda>t. - createdAt_t t) (map snd (transactions s)))"
  by (simp add: getRecentTransactions_def slice0_def map_vals_def Let_def comp_def)

section \<open>The example stores, evaluated\<close>

lemmas handler_defs =
  post_accounts_def post_deposit_def post_withdraw_def post_transfer_def
  insertAccountSchema_parse_def createAccount_def updateAccountBalance_def
  createTransaction_def getAccountByNumber_def map_vals_def Let_def
  js_add_def js_sub_def round_to_double_def expo_def rne_def compute_bitlen

lemma two_accounts_eq:
  "two_accounts =
     \<lparr>accounts =
        [(''a1'', \<lparr>id_a = ''a1'', accountNumber = 1, name = ''Alice'', balance = 100, createdAt_a = 1\<rparr>),
         (''a2'', \<lparr>id_a = ''a2'', accountNumber = 2, name = ''Bob'', balance = 0, createdAt_a = 2\<rparr>)],
      transactions =
        [(''t1'', \<lparr>id_t = ''t1'', type_t = ''deposit'', fromAccountId = None,
                   toAccountId = Some ''a1'', amount = 100, createdAt_t = 1\<rparr>)]\<rparr>"
  by (simp add: two_accounts_def run_def MemStorage_new_def alice_body_def bob_body_def handler_defs)

lemma busy_store_eq:
  "busy_store =
     \<lparr>accounts =
        [(''a1'', \<lparr>id_a = ''a1'', accountNumber = 1, name = ''Alice'', balance = 100, createdAt_a = 1\<rparr>),
         (''a2'', \<lparr>id_a = ''a2'', accountNumber = 2, name = ''Bob'', balance = 40, createdAt_a = 2\<rparr>)],
      transactions =
        [(''t1'', \<lparr>id_t = ''t1'', type_t = ''deposit'', fromAccountId = None,
                   toAccountId = Some ''a1'', amount = 100, createdAt_t = 1\<rparr>),
         (''t3'', \<lparr>id_t = ''t3'', type_t = ''deposit'', fromAccountId = None,
                   toAccountId = Some ''a1'', amount = 50, createdAt_t = 5\<rparr>),
         (''t4'', \<lparr>id_t = ''t4'', type_t = ''withdraw'', fromAccountId = Some ''a1'',
                   toAccountId = None, amount = 10, createdAt_t = 5\<rparr>),
         (''t5'', \<lparr>id_t = ''t5'', type_t = ''transfer'', fromAccountId = Some ''a1'',
                   toAccountId = Some ''a2'', amount = 40, createdAt_t = 3\<rparr>)]\<rparr>"
  by (simp add: busy_store_def run_def two_accounts_eq handler_defs)

lemma keyed_two_accounts: "keyed_by_id two_accounts"
  by (simp add: two_accounts_eq keyed_by_id_def)

lemma big_store_eq:
  "big_store =
     \<lparr>accounts =
        [(''a1'', \<lparr>id_a = ''a1'', accountNumber = 1, name = ''Alice'', balance = 100, createdAt_a = 1\<rparr>),
         (''a2'', \<lparr>id_a = ''a2'', accountNumber = 2, name = ''Bob'', balance = 9007199254740992,
                   createdAt_a = 2\<rparr>)],
      transactions =
        [(''t1'', \<lparr>id_t = ''t1'', type_t = ''deposit'', fromAccountId = None,
                   toAccountId = Some ''a1'', amount = 100, createdAt_t = 1\<rparr>),
         (''t3'', \<lparr>id_t = ''t3'', type_t = ''deposit'', fromAccountId = None,
                   toAccountId = Some ''a2'', amount = 9007199254740992, createdAt_t = 3\<rparr>)]\<rparr>"
  by (simp add: big_store_def run_def two_accounts_eq handler_defs)

lemma big_transfer:
  "post_transfer big_store \<lparr>uuid = ''t4'', now = 4\<rparr> 1 2 1 =
     (Inr (\<lparr>id_a = ''a1'', accountNumber = 1, name = ''Alice'', balance = 99, createdAt_a = 1\<rparr>,
           \<lparr>id_a = ''a2'', accountNumber = 2, name = ''Bob'', balance = 9007199254740992,
              createdAt_a = 2\<rparr>),
      big_store_after)"
  by (simp add: big_store_eq big_store_after_def handler_defs)

section \<open>Creating an account\<close>

text \<open>
  C1. A request to create an account whose account number is not positive, whose name is
  empty or whose initial balance is negative should be refused as \<open>InvalidInput\<close> with
  no account inserted. The handler validates against the schema generated from the
  table, which has no such check: on the empty store the body
  \<open>{accountNumber: 0, name: "", balance: -100}\<close> is served and the account is inserted.
\<close>

theorem create_accepts_invalid_arguments:
  "post_accounts MemStorage_new \<lparr>uuid = ''a1'', now = 1\<rparr> \<lparr>uuid = ''t1'', now = 1\<rparr>
     \<lparr>accountNumber_b = JNum 0, name_b = JStr [], balance_b = JNum (- 100)\<rparr> =
   (Inr \<lparr>id_a = ''a1'', accountNumber = 0, name = [], balance = - 100, createdAt_a = 1\<rparr>,
    \<lparr>accounts =
       [(''a1'', \<lparr>id_a = ''a1'', accountNumber = 0, name = [], balance = - 100, createdAt_a = 1\<rparr>)],
     transactions = []\<rparr>)"
  by (simp add: MemStorage_new_def handler_defs)

text \<open>
  C2. Every balance should be at least zero in every store reachable from the empty one.
  One request to create an account with balance \<open>-100\<close> reaches a store in which
  account 7 holds \<open>-100\<close>.
\<close>

theorem negative_balance_reachable:
  "getAccountByNumber
     (run MemStorage_new
        [PostAccounts \<lparr>uuid = ''a1'', now = 1\<rparr> \<lparr>uuid = ''t1'', now = 1\<rparr>
           \<lparr>accountNumber_b = JNum 7, name_b = JStr ''Mallory'', balance_b = JNum (- 100)\<rparr>]) 7 =
   Some \<lparr>id_a = ''a1'', accountNumber = 7, name = ''Mallory'', balance = - 100, createdAt_a = 1\<rparr>"
  by (simp add: run_def MemStorage_new_def handler_defs)

text \<open>
  C4. After a request that created an account, a second request to create an account
  with the same account number (its body passing the schema) is answered with
  \<open>DuplicateAccount\<close> and leaves the store as it was; the account of the first request
  is still stored under its identifier, with every field as created.
\<close>

theorem duplicate_account_rejected:
  assumes "post_accounts s e1 e2 body1 = (Inr account, s1)"
    and "insertAccountSchema_parse body2 = Some i2"
    and "accountNumber_i i2 = accountNumber account"
  shows "post_accounts s1 e3 e4 body2 = (Inl DuplicateAccount, s1)
         \<and> getAccount s1 (id_a account) = Some account"
proof -
  from assms(1) obtain i1 s0 where c: "createAccount s e1 i1 = Inr (account, s0)"
    and acc: "accounts s1 = accounts s0"
    using post_accounts_Inr by blast
  from created_account [OF c] acc assms(3)
  have ex: "getAccountByNumber s1 (accountNumber_i i2) \<noteq> None"
    and got: "getAccount s1 (id_a account) = Some account"
    by (simp_all add: getAccountByNumber_accounts [OF acc] getAccount_accounts [OF acc])
  from ex assms(2) have "post_accounts s1 e3 e4 body2 = (Inl DuplicateAccount, s1)"
    by (auto simp: post_accounts_def createAccount_def)
  with got show ?thesis by simp
qed

theorem duplicate_account_rejected_witness:
  "post_accounts MemStorage_new \<lparr>uuid = ''a1'', now = 1\<rparr> \<lparr>uuid = ''t1'', now = 1\<rparr> alice_body =
     (Inr \<lparr>id_a = ''a1'', accountNumber = 1, name = ''Alice'', balance = 100, createdAt_a = 1\<rparr>,
      \<lparr>accounts =
         [(''a1'', \<lparr>id_a = ''a1'', accountNumber = 1, name = ''Alice'', balance = 100, createdAt_a = 1\<rparr>)],
       transactions =
         [(''t1'', \<lparr>id_t = ''t1'', type_t = ''deposit'', fromAccountId = None,
                   toAccountId = Some ''a1'', amount = 100, createdAt_t = 1\<rparr>)]\<rparr>)
   \<and> post_accounts
        \<lparr>accounts =
         [(''a1'', \<lparr>id_a = ''a1'', accountNumber = 1, name = ''Alice'', balance = 100, createdAt_a = 1\<rparr>)],
       transactions =
         [(''t1'', \<lparr>id_t = ''t1'', type_t = ''deposit'', fromAccountId = None,
                   toAccountId = Some ''a1'', amount = 100, createdAt_t = 1\<rparr>)]\<rparr>
        \<lparr>uuid = ''a2'', now = 2\<rparr> \<lparr>uuid = ''t2'', now = 2\<rparr>
        \<lparr>accountNumber_b = JNum 1, name_b = JStr ''Eve'', balance_b = JNum 5\<rparr> =
     (Inl DuplicateAccount,
      \<lparr>accounts =
         [(''a1'', \<lparr>id_a = ''a1'', accountNumber = 1, name = ''Alice'', balance = 100, createdAt_a = 1\<rparr>)],
       transactions =
         [(''t1'', \<lparr>id_t = ''t1'', type_t = ''deposit'', fromAccountId = None,
                   toAccountId = Some ''a1'', amount = 100, createdAt_t = 1\<rparr>)]\<rparr>)"
  (is "?first = (Inr ?alice, ?s1) \<and> ?second = (Inl DuplicateAccount, ?s1)")
proof -
  have f: "?first = (Inr ?alice, ?s1)"
    by (simp add: MemStorage_new_def alice_body_def handler_defs)
  have p: "insertAccountSchema_parse
             \<lparr>accountNumber_b = JNum 1, name_b = JStr ''Eve'', balance_b = JNum 5\<rparr> =
           Some \<lparr>accountNumber_i = 1, name_i = ''Eve'', balance_i = Some 5\<rparr>"
    by (simp add: insertAccountSchema_parse_def)
  from duplicate_account_rejected [OF f p] have "?second = (Inl DuplicateAccount, ?s1)"
    by simp
  with f show ?thesis by simp
qed

section \<open>Rejected requests\<close>



text \<open>
  C7. A transfer of a positive amount from an account number to the same number is
  answered with \<open>SameAccountTransfer\<close> and leaves the store as it was, whatever the
  store holds: the answer does not depend on any lookup.
\<close>

theorem same_account_transfer:
  "0 < amt \<Longrightarrow> post_transfer s e n n amt = (Inl SameAccountTransfer, s)"
  by (simp add: post_transfer_def)

theorem same_account_transfer_witness:
  "getAccountByNumber MemStorage_new 7 = None
   \<and> post_transfer MemStorage_new \<lparr>uuid = ''t1'', now = 1\<rparr> 7 7 5 =
       (Inl SameAccountTransfer, MemStorage_new)"
  using same_account_transfer [of 5 MemStorage_new "\<lparr>uuid = ''t1'', now = 1\<rparr>" 7]
  by (simp add: getAccountByNumber_def map_vals_def MemStorage_new_def)

section \<open>Transfers\<close>

text \<open>What a served transfer does to the sum of the balances: it adds the two rounding
  errors.\<close>

lemma post_transfer_total:
  assumes "keyed_by_id s" and "post_transfer s e f t amt = (Inr r, s')"
    and "getAccountByNumber s f = Some fa" and "getAccountByNumber s t = Some ta"
  shows "sum_balances s' =
           sum_balances s + (js_sub (balance fa) amt - (balance fa - amt))
                          + (js_add (balance ta) amt - (balance ta + amt))"
    and "keyed_by_id s'"
proof -
  from assms(2) have h: "0 < amt" "f \<noteq> t" "amt \<le> balance fa"
    using post_transfer_Inr [of s e f t amt r s'] assms(3) by auto
  let ?m1 = "set_balance (id_a fa) (js_sub (balance fa) amt) (accounts s)"
  let ?m2 = "set_balance (id_a ta) (js_add (balance ta) amt) ?m1"
  from post_transfer_served [OF assms(1) h(1,2) assms(3,4) h(3), of e] assms(2)
  have s': "accounts s' = ?m2" by auto
  have d: "distinct (map fst (accounts s))" using assms(1) by (simp add: keyed_by_id_def)
  have fin: "(id_a fa, fa) \<in> set (accounts s)" using assms(1,3) by (rule found_keyed)
  have tin: "(id_a ta, ta) \<in> set (accounts s)" using assms(1,4) by (rule found_keyed)
  have ids: "id_a fa \<noteq> id_a ta" using assms(1,3,4) h(2) by (rule distinct_ids)
  have tin1: "(id_a ta, ta) \<in> set ?m1" using tin ids by (simp add: in_set_balance_other)
  have d1: "distinct (map fst ?m1)" using d by (simp add: map_fst_set_balance)
  have "sum_list (map (\<lambda>(k, a). balance a) ?m1) =
        sum_list (map (\<lambda>(k, a). balance a) (accounts s)) - balance fa + js_sub (balance fa) amt"
    using d fin by (rule sum_set_balance)
  moreover have "sum_list (map (\<lambda>(k, a). balance a) ?m2) =
        sum_list (map (\<lambda>(k, a). balance a) ?m1) - balance ta + js_add (balance ta) amt"
    using d1 tin1 by (rule sum_set_balance)
  ultimately show "sum_balances s' =
           sum_balances s + (js_sub (balance fa) amt - (balance fa - amt))
                          + (js_add (balance ta) amt - (balance ta + amt))"
    using s' by (simp add: sum_balances_def)
  show "keyed_by_id s'"
    using assms(1) s' by (simp add: keyed_by_id_def map_fst_set_balance list_all_set_balance)
qed

text \<open>
  C3, as stated, fails. Starting from the store in which account 1 holds 100 and account
  2 holds \<open>2\<^sup>5\<^sup>3\<close>, the transfer of 1 from account 1 to account 2 is served; account 1
  then holds 99 and account 2, whose new balance \<open>2\<^sup>5\<^sup>3 + 1\<close> is no double, still holds
  \<open>2\<^sup>5\<^sup>3\<close>: the sum of the balances went down by 1.
\<close>

theorem transfer_changes_total:
  "transfers big_store [(\<lparr>uuid = ''t4'', now = 4\<rparr>, 1, 2, 1)] = Some big_store_after
   \<and> sum_balances big_store = 9007199254741092
   \<and> sum_balances big_store_after = 9007199254741091"
  by (simp add: big_transfer) (simp add: big_store_eq big_store_after_def sum_balances_def)

text \<open>
  C3, amended. Over any sequence of transfers that are all served and in which no new
  balance is rounded (each source balance less the amount and each destination balance
  plus the amount is a finite double), starting from any store of the class, the sum of
  all balances at the end is the sum at the start.
\<close>

theorem exact_transfers_conserve_total:
  "keyed_by_id s \<Longrightarrow> transfers s rs = Some s' \<Longrightarrow> exact_transfers s rs \<Longrightarrow>
   sum_balances s' = sum_balances s"
proof (induction rs arbitrary: s)
  case Nil
  then show ?case by simp
next
  case (Cons q rs)
  obtain e f t amt where q: "q = (e, f, t, amt)" by (cases q)
  from Cons.prems(2) q obtain r s1 where
    step: "post_transfer s e f t amt = (Inr r, s1)" and rest: "transfers s1 rs = Some s'"
    by (auto split: prod.splits sum.splits)
  from Cons.prems(3) q step obtain fa ta where
    fa: "getAccountByNumber s f = Some fa" and ta: "getAccountByNumber s t = Some ta"
    and ex: "finite_double (balance fa - amt)" "finite_double (balance ta + amt)"
    and more: "exact_transfers s1 rs"
    by (auto split: option.splits)
  from ex have "js_sub (balance fa) amt = balance fa - amt"
    and "js_add (balance ta) amt = balance ta + amt"
    by (simp_all add: finite_double_def js_sub_def js_add_def)
  with post_transfer_total [OF Cons.prems(1) step fa ta]
  have "sum_balances s1 = sum_balances s" and "keyed_by_id s1" by simp_all
  with Cons.IH [of s1] rest more show ?case by simp
qed

theorem exact_transfers_conserve_total_witness:
  "exact_transfers two_accounts
     [(\<lparr>uuid = ''t3'', now = 3\<rparr>, 1, 2, 40), (\<lparr>uuid = ''t4'', now = 4\<rparr>, 2, 1, 15)]
   \<and> transfers two_accounts
     [(\<lparr>uuid = ''t3'', now = 3\<rparr>, 1, 2, 40), (\<lparr>uuid = ''t4'', now = 4\<rparr>, 2, 1, 15)] =
   Some two_accounts_after
   \<and> sum_balances two_accounts = 100
   \<and> sum_balances two_accounts_after = sum_balances two_accounts"
  (is "?exact \<and> ?run = Some ?end \<and> ?before \<and> ?same")
proof -
  have x: ?exact
    by (simp add: two_accounts_eq finite_double_def handler_defs)
  have r: "?run = Some ?end"
    by (simp add: two_accounts_eq two_accounts_after_def handler_defs)
  have b: ?before by (simp add: two_accounts_eq sum_balances_def)
  from exact_transfers_conserve_total [OF keyed_two_accounts r x] have ?same .
  with x r b show ?thesis by simp
qed

text \<open>
  C6, as stated, fails. In the same store the transfer of 1 from account 1 to account 2
  is served, and account 2 holds \<open>2\<^sup>5\<^sup>3\<close> before and after it: its balance did not
  go up by the amount.
\<close>

theorem transfer_not_exact:
  "getAccountByNumber big_store 2 =
     Some \<lparr>id_a = ''a2'', accountNumber = 2, name = ''Bob'', balance = 9007199254740992,
            createdAt_a = 2\<rparr>
   \<and> fst (post_transfer big_store \<lparr>uuid = ''t4'', now = 4\<rparr> 1 2 1) =
     Inr (\<lparr>id_a = ''a1'', accountNumber = 1, name = ''Alice'', balance = 99, createdAt_a = 1\<rparr>,
          \<lparr>id_a = ''a2'', accountNumber = 2, name = ''Bob'', balance = 9007199254740992,
             createdAt_a = 2\<rparr>)
   \<and> getAccountByNumber (snd (post_transfer big_store \<lparr>uuid = ''t4'', now = 4\<rparr> 1 2 1)) 2 =
     Some \<lparr>id_a = ''a2'', accountNumber = 2, name = ''Bob'', balance = 9007199254740992,
            createdAt_a = 2\<rparr>"
  by (simp add: big_transfer)
    (simp add: big_store_eq big_store_after_def getAccountByNumber_def map_vals_def)

text \<open>
  C6, amended. After a served transfer between two accounts of a store of the class, the
  answer carries both accounts with their new balances; the source holds the double
  nearest to its balance less the amount and the destination the double nearest to its
  balance plus the amount (a tie going to the even significand), which is exactly the
  amount less and exactly the amount more wherever that difference and that sum are
  doubles; and the transactions are the ones before followed by exactly one new record,
  of type \<open>transfer\<close>, from the source's identifier to the destination's, with the
  amount. The identifier drawn for the record is not yet in use, and the destination's
  new balance is within the range of doubles.
\<close>

theorem transfer_moves_rounded_amount:
  assumes "keyed_by_id s"
    and "uuid e \<notin> fst ` set (transactions s)"
    and "post_transfer s e f t amt = (Inr r, s')"
    and "getAccountByNumber s f = Some fa" and "getAccountByNumber s t = Some ta"
    and "\<bar>js_add (balance ta) amt\<bar> < 2 ^ 1024"
  shows "r = (fa\<lparr>balance := js_sub (balance fa) amt\<rparr>, ta\<lparr>balance := js_add (balance ta) amt\<rparr>)
    \<and> getAccountByNumber s' f = Some (fa\<lparr>balance := js_sub (balance fa) amt\<rparr>)
    \<and> getAccountByNumber s' t = Some (ta\<lparr>balance := js_add (balance ta) amt\<rparr>)
    \<and> (finite_double (balance fa - amt) \<longrightarrow> js_sub (balance fa) amt = balance fa - amt)
    \<and> (finite_double (balance ta + amt) \<longrightarrow> js_add (balance ta) amt = balance ta + amt)
    \<and> transactions s' =
           transactions s @
           [(uuid e, \<lparr>id_t = uuid e, type_t = ''transfer'', fromAccountId = Some (id_a fa),
                       toAccountId = Some (id_a ta), amount = amt, createdAt_t = now e\<rparr>)]"
proof -
  from assms(3) have h: "0 < amt" "f \<noteq> t" "amt \<le> balance fa"
    using post_transfer_Inr [of s e f t amt r s'] assms(4) by auto
  let ?s1 = "s\<lparr>accounts := set_balance (id_a fa) (js_sub (balance fa) amt) (accounts s)\<rparr>"
  let ?s2 = "?s1\<lparr>accounts := set_balance (id_a ta) (js_add (balance ta) amt) (accounts ?s1)\<rparr>"
  let ?tx = "\<lparr>id_t = uuid e, type_t = ''transfer'', fromAccountId = Some (id_a fa),
              toAccountId = Some (id_a ta), amount = amt, createdAt_t = now e\<rparr>"
  have served: "post_transfer s e f t amt =
      (Inr (fa\<lparr>balance := js_sub (balance fa) amt\<rparr>, ta\<lparr>balance := js_add (balance ta) amt\<rparr>),
       \<lparr>accounts = accounts ?s2, transactions = map_set (uuid e) ?tx (transactions s)\<rparr>)"
    using post_transfer_served [OF assms(1) h(1,2) assms(4,5) h(3), of e] by simp
  have ids: "id_a fa \<noteq> id_a ta" using assms(1,4,5) h(2) by (rule distinct_ids)
  have k1: "keyed_by_id ?s1" using assms(1) by (rule keyed_set_balance)
  have f1: "getAccountByNumber ?s1 f = Some (fa\<lparr>balance := js_sub (balance fa) amt\<rparr>)"
    using assms(1,4) by (simp add: getAccountByNumber_set_balance)
  have t1: "getAccountByNumber ?s1 t = Some ta"
    using assms(1,5) ids by (simp add: getAccountByNumber_set_balance)
  have f2: "getAccountByNumber ?s2 f = Some (fa\<lparr>balance := js_sub (balance fa) amt\<rparr>)"
    using f1 ids
      getAccountByNumber_set_balance [OF k1, of "id_a ta" "js_add (balance ta) amt" f]
    by simp
  have t2: "getAccountByNumber ?s2 t = Some (ta\<lparr>balance := js_add (balance ta) amt\<rparr>)"
    using t1 getAccountByNumber_set_balance [OF k1, of "id_a ta" "js_add (balance ta) amt" t]
    by simp
  from served assms(3) have r: "r = (fa\<lparr>balance := js_sub (balance fa) amt\<rparr>,
      ta\<lparr>balance := js_add (balance ta) amt\<rparr>)"
    and acc: "accounts s' = accounts ?s2"
    and tx0: "transactions s' = map_set (uuid e) ?tx (transactions s)"
    by auto
  from tx0 assms(2) have tx: "transactions s' = transactions s @ [(uuid e, ?tx)]"
    by (simp add: map_set_absent)
  have x1: "finite_double (balance fa - amt) \<longrightarrow> js_sub (balance fa) amt = balance fa - amt"
    by (simp add: finite_double_def js_sub_def)
  have x2: "finite_double (balance ta + amt) \<longrightarrow> js_add (balance ta) amt = balance ta + amt"
    by (simp add: finite_double_def js_add_def)
  from f2 t2 have "getAccountByNumber s' f = Some (fa\<lparr>balance := js_sub (balance fa) amt\<rparr>)"
    and "getAccountByNumber s' t = Some (ta\<lparr>balance := js_add (balance ta) amt\<rparr>)"
    unfolding getAccountByNumber_accounts [OF acc] by simp_all
  with r x1 x2 tx show ?thesis by simp
qed

theorem transfer_moves_rounded_amount_witness:
  "post_transfer two_accounts \<lparr>uuid = ''t3'', now = 3\<rparr> 1 2 40 =
     (Inr (\<lparr>id_a = ''a1'', accountNumber = 1, name = ''Alice'', balance = 60, createdAt_a = 1\<rparr>,
           \<lparr>id_a = ''a2'', accountNumber = 2, name = ''Bob'', balance = 40, createdAt_a = 2\<rparr>),
      \<lparr>accounts =
         [(''a1'', \<lparr>id_a = ''a1'', accountNumber = 1, name = ''Alice'', balance = 60, createdAt_a = 1\<rparr>),
          (''a2'', \<lparr>id_a = ''a2'', accountNumber = 2, name = ''Bob'', balance = 40, createdAt_a = 2\<rparr>)],
       transactions =
         [(''t1'', \<lparr>id_t = ''t1'', type_t = ''deposit'', fromAccountId = None,
                    toAccountId = Some ''a1'', amount = 100, createdAt_t = 1\<rparr>),
          (''t3'', \<lparr>id_t = ''t3'', type_t = ''transfer'', fromAccountId = Some ''a1'',
                    toAccountId = Some ''a2'', amount = 40, createdAt_t = 3\<rparr>)]\<rparr>)
   \<and> getAccountByNumber (snd (post_transfer two_accounts \<lparr>uuid = ''t3'', now = 3\<rparr> 1 2 40)) 1 =
       Some \<lparr>id_a = ''a1'', accountNumber = 1, name = ''Alice'', balance = 60, createdAt_a = 1\<rparr>
   \<and> getAccountByNumber (snd (post_transfer two_accounts \<lparr>uuid = ''t3'', now = 3\<rparr> 1 2 40)) 2 =
       Some \<lparr>id_a = ''a2'', accountNumber = 2, name = ''Bob'', balance = 40, createdAt_a = 2\<rparr>"
proof -
  let ?alice = "\<lparr>id_a = ''a1'', accountNumber = 1, name = ''Alice'', balance = 100, createdAt_a = 1\<rparr>"
  let ?bob = "\<lparr>id_a = ''a2'', accountNumber = 2, name = ''Bob'', balance = 0, createdAt_a = 2\<rparr>"
  let ?e = "\<lparr>uuid = ''t3'', now = 3\<rparr>"
  let ?s' = "snd (post_transfer two_accounts ?e 1 2 40)"
  have fr: "uuid ?e \<notin> fst ` set (transactions two_accounts)"
    by (simp add: two_accounts_eq)
  have ga: "getAccountByNumber two_accounts 1 = Some ?alice"
    by (simp add: two_accounts_eq getAccountByNumber_def map_vals_def)
  have gb: "getAccountByNumber two_accounts 2 = Some ?bob"
    by (simp add: two_accounts_eq getAccountByNumber_def map_vals_def)
  have ev: "post_transfer two_accounts ?e 1 2 40 =
     (Inr (\<lparr>id_a = ''a1'', accountNumber = 1, name = ''Alice'', balance = 60, createdAt_a = 1\<rparr>,
           \<lparr>id_a = ''a2'', accountNumber = 2, name = ''Bob'', balance = 40, createdAt_a = 2\<rparr>),
      \<lparr>accounts =
         [(''a1'', \<lparr>id_a = ''a1'', accountNumber = 1, name = ''Alice'', balance = 60, createdAt_a = 1\<rparr>),
          (''a2'', \<lparr>id_a = ''a2'', accountNumber = 2, name = ''Bob'', balance = 40, createdAt_a = 2\<rparr>)],
       transactions =
         [(''t1'', \<lparr>id_t = ''t1'', type_t = ''deposit'', fromAccountId = None,
                    toAccountId = Some ''a1'', amount = 100, createdAt_t = 1\<rparr>),
          (''t3'', \<lparr>id_t = ''t3'', type_t = ''transfer'', fromAccountId = Some ''a1'',
                    toAccountId = Some ''a2'', amount = 40, createdAt_t = 3\<rparr>)]\<rparr>)"
    by (simp add: two_accounts_eq handler_defs)
  then have sv: "post_transfer two_accounts ?e 1 2 40 = (Inr (fst (projr (fst (post_transfer two_accounts ?e 1 2 40))), snd (projr (fst (post_transfer two_accounts ?e 1 2 40)))), ?s')"
    by simp
  have rg: "\<bar>js_add (balance ?bob) 40\<bar> < 2 ^ 1024"
    by (simp add: handler_defs)
  have v1: "js_sub (balance ?alice) 40 = 60" and v2: "js_add (balance ?bob) 40 = 40"
    by (simp_all add: handler_defs)
  note t = transfer_moves_rounded_amount [OF keyed_two_accounts fr sv ga gb rg]
  have a: "getAccountByNumber ?s' 1 =
       Some \<lparr>id_a = ''a1'', accountNumber = 1, name = ''Alice'', balance = 60, createdAt_a = 1\<rparr>"
    using t [THEN conjunct2, THEN conjunct1] v1 by simp
  have b: "getAccountByNumber ?s' 2 =
       Some \<lparr>id_a = ''a2'', accountNumber = 2, name = ''Bob'', balance = 40, createdAt_a = 2\<rparr>"
    using t [THEN conjunct2, THEN conjunct2, THEN conjunct1] v2 by simp
  show ?thesis using ev a b by - (intro conjI; assumption)
qed

section \<open>What a served request leaves alone\<close>

text \<open>
  C10. A served deposit, withdrawal or transfer keeps the account map's keys and their
  order, keeps the identifier, account number, name and creation time of every account,
  leaves every account other than the targeted one (for a transfer: the two targeted
  ones) the same record, and keeps every transaction that was there, adding one at the
  end. The store is one the class builds, and the identifier drawn for the new
  transaction is not yet in use.
\<close>

theorem served_requests_frame:
  assumes "keyed_by_id s" and "uuid e \<notin> fst ` set (transactions s)"
  shows "(\<forall>a r s'. getAccountByNumber s n = Some a \<and> post_deposit s e n amt = (Inr r, s') \<longrightarrow>
            frame_accounts {id_a a} (accounts s) (accounts s')
            \<and> (\<exists>tx. transactions s' = transactions s @ [tx]))
       \<and> (\<forall>a r s'. getAccountByNumber s n = Some a \<and> post_withdraw s e n amt = (Inr r, s') \<longrightarrow>
            frame_accounts {id_a a} (accounts s) (accounts s')
            \<and> (\<exists>tx. transactions s' = transactions s @ [tx]))
       \<and> (\<forall>fa ta r s'. getAccountByNumber s f = Some fa \<and> getAccountByNumber s t = Some ta
              \<and> post_transfer s e f t amt = (Inr r, s') \<longrightarrow>
            frame_accounts {id_a fa, id_a ta} (accounts s) (accounts s')
            \<and> (\<exists>tx. transactions s' = transactions s @ [tx]))"
proof (intro conjI allI impI)
  fix a r s'
  assume h: "getAccountByNumber s n = Some a \<and> post_deposit s e n amt = (Inr r, s')"
  then have p: "0 < amt" using post_deposit_Inr by blast
  from post_deposit_served [OF assms(1) p, of n a e] h
  have "accounts s' = set_balance (id_a a) (js_add (balance a) amt) (accounts s)"
    and "\<exists>tx. transactions s' = transactions s @ [tx]"
    using assms(2) by (auto simp: map_set_absent)
  then show "frame_accounts {id_a a} (accounts s) (accounts s')"
    and "\<exists>tx. transactions s' = transactions s @ [tx]"
    by (simp_all add: frame_set_balance)
next
  fix a r s'
  assume h: "getAccountByNumber s n = Some a \<and> post_withdraw s e n amt = (Inr r, s')"
  then have p: "0 < amt" and q: "amt \<le> balance a" using post_withdraw_Inr by fastforce+
  from post_withdraw_served [OF assms(1) p, of n a e] h q
  have "accounts s' = set_balance (id_a a) (js_sub (balance a) amt) (accounts s)"
    and "\<exists>tx. transactions s' = transactions s @ [tx]"
    using assms(2) by (auto simp: map_set_absent)
  then show "frame_accounts {id_a a} (accounts s) (accounts s')"
    and "\<exists>tx. transactions s' = transactions s @ [tx]"
    by (simp_all add: frame_set_balance)
next
  fix fa ta r s'
  assume h: "getAccountByNumber s f = Some fa \<and> getAccountByNumber s t = Some ta
              \<and> post_transfer s e f t amt = (Inr r, s')"
  then have p: "0 < amt" and d: "f \<noteq> t" and q: "amt \<le> balance fa"
    using post_transfer_Inr by fastforce+
  from post_transfer_served [OF assms(1) p d, of fa ta e] h q
  have "accounts s' = set_balance (id_a ta) (js_add (balance ta) amt)
                        (set_balance (id_a fa) (js_sub (balance fa) amt) (accounts s))"
    and "\<exists>tx. transactions s' = transactions s @ [tx]"
    using assms(2) by (auto simp: map_set_absent)
  then show "frame_accounts {id_a fa, id_a ta} (accounts s) (accounts s')"
    and "\<exists>tx. transactions s' = transactions s @ [tx]"
    by (simp_all add: frame_set_balance2)
qed

theorem served_requests_frame_witness:
  "frame_accounts {''a1''} (accounts two_accounts)
     (accounts (snd (post_deposit two_accounts \<lparr>uuid = ''t3'', now = 3\<rparr> 1 30)))
   \<and> frame_accounts {''a1''} (accounts two_accounts)
     (accounts (snd (post_withdraw two_accounts \<lparr>uuid = ''t3'', now = 3\<rparr> 1 30)))
   \<and> frame_accounts {''a1'', ''a2''} (accounts two_accounts)
     (accounts (snd (post_transfer two_accounts \<lparr>uuid = ''t3'', now = 3\<rparr> 1 2 30)))
   \<and> (\<exists>tx. transactions (snd (post_transfer two_accounts \<lparr>uuid = ''t3'', now = 3\<rparr> 1 2 30)) =
             transactions two_accounts @ [tx])"
proof -
  let ?alice = "\<lparr>id_a = ''a1'', accountNumber = 1, name = ''Alice'', balance = 100, createdAt_a = 1\<rparr>"
  let ?bob = "\<lparr>id_a = ''a2'', accountNumber = 2, name = ''Bob'', balance = 0, createdAt_a = 2\<rparr>"
  let ?e = "\<lparr>uuid = ''t3'', now = 3\<rparr>"
  have fr: "uuid ?e \<notin> fst ` set (transactions two_accounts)"
    by (simp add: two_accounts_eq)
  have ga: "getAccountByNumber two_accounts 1 = Some ?alice"
    by (simp add: two_accounts_eq getAccountByNumber_def map_vals_def)
  have gb: "getAccountByNumber two_accounts 2 = Some ?bob"
    by (simp add: two_accounts_eq getAccountByNumber_def map_vals_def)
  obtain rd sd where d: "post_deposit two_accounts ?e 1 30 = (Inr rd, sd)"
    by (simp add: two_accounts_eq handler_defs)
  obtain rw sw where w: "post_withdraw two_accounts ?e 1 30 = (Inr rw, sw)"
    by (simp add: two_accounts_eq handler_defs)
  obtain rt st where t: "post_transfer two_accounts ?e 1 2 30 = (Inr rt, st)"
    by (simp add: two_accounts_eq handler_defs)
  note fact = served_requests_frame [OF keyed_two_accounts fr, of 1 30 1 2]
  from fact [THEN conjunct1] ga d
  have 1: "frame_accounts {''a1''} (accounts two_accounts) (accounts sd)" by fastforce
  from fact [THEN conjunct2, THEN conjunct1] ga w
  have 2: "frame_accounts {''a1''} (accounts two_accounts) (accounts sw)" by fastforce
  from fact [THEN conjunct2, THEN conjunct2] ga gb t
  have 3: "frame_accounts {''a1'', ''a2''} (accounts two_accounts) (accounts st)
           \<and> (\<exists>tx. transactions st = transactions two_accounts @ [tx])" by fastforce
  from 1 2 3 d w t show ?thesis by simp
qed

section \<open>Reads\<close>

text \<open>
  C9. For a limit that is not negative and a store whose transactions hold no empty
  string as a reference, \<open>getRecentTransactions\<close> returns \<open>limit\<close> transactions (all
  of them when there are fewer), newest first; every transaction left out is at most as
  new as every one returned; among transactions of one creation time the order, and the
  choice, follows the order of insertion; and each is annotated with the account number
  and name of the account stored under its reference at the time of the call, or with
  nothing when the reference is \<open>null\<close> or no account is stored under it.
\<close>

theorem recent_transactions:
  assumes "0 \<le> limit"
    and "\<forall>t \<in> set (map snd (transactions s)). fromAccountId t \<noteq> Some [] \<and> toAccountId t \<noteq> Some []"
  shows "length (getRecentTransactions s limit) = min (nat limit) (length (transactions s))
    \<and> sorted_wrt (\<lambda>a b. createdAt_t b \<le> createdAt_t a)
         (map transaction_d (getRecentTransactions s limit))
    \<and> (\<exists>rest. mset (map transaction_d (getRecentTransactions s limit) @ rest) =
                  mset (map snd (transactions s))
          \<and> (\<forall>t \<in> set (map transaction_d (getRecentTransactions s limit)).
               \<forall>u \<in> set rest. createdAt_t u \<le> createdAt_t t))
    \<and> (\<forall>k. prefix (filter (\<lambda>t. createdAt_t t = k)
                       (map transaction_d (getRecentTransactions s limit)))
                    (filter (\<lambda>t. createdAt_t t = k) (map snd (transactions s))))
    \<and> (\<forall>r \<in> set (getRecentTransactions s limit).
          fromAccount r =
            (case fromAccountId (transaction_d r) of None \<Rightarrow> None
             | Some i \<Rightarrow> map_option (\<lambda>a. (accountNumber a, name a)) (map_of (accounts s) i))
        \<and> toAccount r =
            (case toAccountId (transaction_d r) of None \<Rightarrow> None
             | Some i \<Rightarrow> map_option (\<lambda>a. (accountNumber a, name a)) (map_of (accounts s) i)))"
proof -
  let ?all = "map snd (transactions s)"
  let ?xs = "sort_key (\<lambda>t. - createdAt_t t) ?all"
  let ?n = "nat limit"
  have ts: "map transaction_d (getRecentTransactions s limit) = take ?n ?xs"
    using assms(1) by (rule transactions_of_recent)
  have len: "length (getRecentTransactions s limit) = min ?n (length (transactions s))"
  proof -
    have "length (map transaction_d (getRecentTransactions s limit)) = length (take ?n ?xs)"
      by (simp only: ts)
    then show ?thesis by (simp add: min.commute)
  qed
  have srt: "sorted_wrt (\<lambda>a b. createdAt_t b \<le> createdAt_t a) ?xs"
    by (rule newest_first_sorted)
  then have s1: "sorted_wrt (\<lambda>a b. createdAt_t b \<le> createdAt_t a) (take ?n ?xs)"
    by (rule sorted_wrt_take)
  have m: "mset (take ?n ?xs @ drop ?n ?xs) = mset ?all" by simp
  have newest: "\<forall>t \<in> set (take ?n ?xs). \<forall>u \<in> set (drop ?n ?xs). createdAt_t u \<le> createdAt_t t"
    using srt by (rule take_newest)
  have ties: "\<forall>k. prefix (filter (\<lambda>t. createdAt_t t = k) (take ?n ?xs))
                          (filter (\<lambda>t. createdAt_t t = k) ?all)"
    using ties_in_insertion_order by blast
  have ann: "\<forall>r \<in> set (getRecentTransactions s limit).
          fromAccount r =
            (case fromAccountId (transaction_d r) of None \<Rightarrow> None
             | Some i \<Rightarrow> map_option (\<lambda>a. (accountNumber a, name a)) (map_of (accounts s) i))
        \<and> toAccount r =
            (case toAccountId (transaction_d r) of None \<Rightarrow> None
             | Some i \<Rightarrow> map_option (\<lambda>a. (accountNumber a, name a)) (map_of (accounts s) i))"
  proof
    fix r assume r: "r \<in> set (getRecentTransactions s limit)"
    then have "transaction_d r \<in> set (map transaction_d (getRecentTransactions s limit))"
      by simp
    then have "transaction_d r \<in> set ?xs" unfolding ts by (rule in_set_takeD)
    then have "transaction_d r \<in> set ?all" by simp
    with assms(2) have ne: "fromAccountId (transaction_d r) \<noteq> Some []"
      "toAccountId (transaction_d r) \<noteq> Some []" by blast+
    from r have "fromAccount r = details_of s (fromAccountId (transaction_d r))"
      "toAccount r = details_of s (toAccountId (transaction_d r))"
      by (auto simp: getRecentTransactions_def Let_def)
    with ne show "fromAccount r =
            (case fromAccountId (transaction_d r) of None \<Rightarrow> None
             | Some i \<Rightarrow> map_option (\<lambda>a. (accountNumber a, name a)) (map_of (accounts s) i))
        \<and> toAccount r =
            (case toAccountId (transaction_d r) of None \<Rightarrow> None
             | Some i \<Rightarrow> map_option (\<lambda>a. (accountNumber a, name a)) (map_of (accounts s) i))"
      by (simp add: details_found)
  qed
  from len s1 m newest ties ann show ?thesis unfolding ts by blast
qed

theorem recent_transactions_witness:
  "getRecentTransactions busy_store 3 =
     [\<lparr>transaction_d =
         \<lparr>id_t = ''t3'', type_t = ''deposit'', fromAccountId = None,
            toAccountId = Some ''a1'', amount = 50, createdAt_t = 5\<rparr>,
       fromAccount = None, toAccount = Some (1, ''Alice'')\<rparr>,
      \<lparr>transaction_d =
         \<lparr>id_t = ''t4'', type_t = ''withdraw'', fromAccountId = Some ''a1'',
            toAccountId = None, amount = 10, createdAt_t = 5\<rparr>,
       fromAccount = Some (1, ''Alice''), toAccount = None\<rparr>,
      \<lparr>transaction_d =
         \<lparr>id_t = ''t5'', type_t = ''transfer'', fromAccountId = Some ''a1'',
            toAccountId = Some ''a2'', amount = 40, createdAt_t = 3\<rparr>,
       fromAccount = Some (1, ''Alice''), toAccount = Some (2, ''Bob'')\<rparr>]
   \<and> length (getRecentTransactions busy_store 3) = min (nat 3) (length (transactions busy_store))
   \<and> sorted_wrt (\<lambda>a b. createdAt_t b \<le> createdAt_t a)
        (map transaction_d (getRecentTransactions busy_store 3))
   \<and> prefix (filter (\<lambda>t. createdAt_t t = 5) (map transaction_d (getRecentTransactions busy_store 3)))
             (filter (\<lambda>t. createdAt_t t = 5) (map snd (transactions busy_store)))"
proof -
  have h: "\<forall>t \<in> set (map snd (transactions busy_store)).
             fromAccountId t \<noteq> Some [] \<and> toAccountId t \<noteq> Some []"
    by (simp add: busy_store_eq)
  have e: "getRecentTransactions busy_store 3 =
     [\<lparr>transaction_d =
         \<lparr>id_t = ''t3'', type_t = ''deposit'', fromAccountId = None,
            toAccountId = Some ''a1'', amount = 50, createdAt_t = 5\<rparr>,
       fromAccount = None, toAccount = Some (1, ''Alice'')\<rparr>,
      \<lparr>transaction_d =
         \<lparr>id_t = ''t4'', type_t = ''withdraw'', fromAccountId = Some ''a1'',
            toAccountId = None, amount = 10, createdAt_t = 5\<rparr>,
       fromAccount = Some (1, ''Alice''), toAccount = None\<rparr>,
      \<lparr>transaction_d =
         \<lparr>id_t = ''t5'', type_t = ''transfer'', fromAccountId = Some ''a1'',
            toAccountId = Some ''a2'', amount = 40, createdAt_t = 3\<rparr>,
       fromAccount = Some (1, ''Alice''), toAccount = Some (2, ''Bob'')\<rparr>]"
    by (simp add: busy_store_eq getRecentTransactions_def slice0_def map_vals_def details_of_def
        getAccount_def map_get_def Let_def)
  have l: "0 \<le> (3::int)" by simp
  note t = recent_transactions [OF l h]
  note a = t [THEN conjunct1]
  note b = t [THEN conjunct2, THEN conjunct1]
  note d = t [THEN conjunct2, THEN conjunct2, THEN conjunct2, THEN conjunct1, THEN spec, of 5]
  show ?thesis using e a b d by - (intro conjI; assumption)
qed

end
